theory Spec2Isabelle
  imports
    Main
    "HOL-Library.Char_ord"
    "HOL-Library.List_Lexorder"
    "HOL-Library.Sublist"
    "HOL-Library.Word"
begin

section \<open>Containers and strings of the C++ sources\<close>

text \<open>
  A \<^verbatim>\<open>std::map<K, V>\<close> is an association list whose keys are kept in strictly
  ascending order; iteration visits the entries in list order. Keys of type
  \<^verbatim>\<open>std::string\<close> compare bytewise and lexicographically, which is the order
  \<^theory_text>\<open>Char_ord\<close> and \<^theory_text>\<open>List_Lexorder\<close> put on \<^typ>\<open>string\<close>.
  \<^verbatim>\<open>m.find(k)\<close> is \<^term>\<open>map_of m k\<close>.
\<close>

definition ordered_keys :: "('k::linorder \<times> 'v) list \<Rightarrow> bool" where
  "ordered_keys m = sorted_wrt (<) (map fst m)"

fun insert_sorted :: "'k::linorder \<Rightarrow> 'v \<Rightarrow> ('k \<times> 'v) list \<Rightarrow> ('k \<times> 'v) list" where
  "insert_sorted k d [] = [(k, d)]"
| "insert_sorted k d ((k', v) # m) =
     (if k < k' then (k, d) # (k', v) # m else (k', v) # insert_sorted k d m)"

text \<open>
  \<^verbatim>\<open>m[k]\<close>: when the key is absent, \<^verbatim>\<open>operator[]\<close> first inserts it with a
  value-initialised entry \<open>d\<close>; the map after the call is \<open>subscript k d m\<close>.
\<close>

definition subscript :: "'k::linorder \<Rightarrow> 'v \<Rightarrow> ('k \<times> 'v) list \<Rightarrow> ('k \<times> 'v) list" where
  "subscript k d m = (if map_of m k = None then insert_sorted k d m else m)"

text \<open>Writing through the reference that \<^verbatim>\<open>m[k]\<close> returned.\<close>

fun assign :: "'k \<Rightarrow> 'v \<Rightarrow> ('k \<times> 'v) list \<Rightarrow> ('k \<times> 'v) list" where
  "assign k v [] = []"
| "assign k v ((k', v') # m) = (if k = k' then (k', v) # m else (k', v') # assign k v m)"

text \<open>
  \<^verbatim>\<open>s.c_str()\<close> read by a C interface that takes a NUL-terminated string
  (\<^verbatim>\<open>sqlite3_bind_text\<close> with length \<open>-1\<close>, the driver entry point, \<^verbatim>\<open>strlen\<close>):
  the bytes before the first NUL.
\<close>

definition c_str :: "string \<Rightarrow> string" where
  "c_str s = takeWhile (\<lambda>c. c \<noteq> CHR 0x00) s"

text \<open>\<^verbatim>\<open>std::to_string\<close> of an integer: its decimal digits.\<close>

function digits :: "nat \<Rightarrow> string" where
  "digits n =
     (if n < 10 then [''0123456789'' ! n]
      else digits (n div 10) @ [''0123456789'' ! (n mod 10)])"
  by pat_completeness auto
termination
  by (relation "measure id") auto

definition to_string :: "int \<Rightarrow> string" where
  "to_string i = (if i < 0 then CHR ''-'' # digits (nat (- i)) else digits (nat i))"

section \<open>The orchestrator (orchestrator.cpp)\<close>

subsection \<open>State\<close>

type_synonym capabilities = "(string \<times> (string \<times> int) list) list"

text \<open>The initialiser of the member \<^verbatim>\<open>robot_capabilities_\<close>.\<close>

definition initial_capabilities :: capabilities where
  "initial_capabilities =
     [(''Ford'', [(''heavy_lifting'', 90), (''navigation'', 70)]),
      (''Scion'', [(''delicate_task'', 85), (''navigation'', 80)])]"

text \<open>A row of the table \<^verbatim>\<open>tasks\<close> that \<^verbatim>\<open>initDatabase\<close> creates.\<close>

record task_row =
  row_id :: int
  task_type :: string
  robot_id :: string
  status :: string
  created_at :: string

text \<open>
  The object's state, with what it has done to its collaborators: the rows of the
  database and the largest id issued so far (the table is \<^verbatim>\<open>AUTOINCREMENT\<close>), the
  requests sent to the AI engine, and the messages published on \<^verbatim>\<open>/mrtodp/tasks\<close>
  (robot id and task type of the JSON object).
\<close>

record orchestrator =
  robot_capabilities :: capabilities
  tasks :: "task_row list"
  sqlite_sequence :: int
  ai_requests :: "string list"
  published :: "(string \<times> string) list"

text \<open>
  What the collaborators do during one call. The exchange with the AI engine either
  fails before the request is out (\<open>SendFailed\<close>), gets no reply before the receive
  timeout, gets a reply that does not parse, gets JSON without a string field
  \<^verbatim>\<open>robot_id\<close>, or gets a robot id.
\<close>

datatype ai_exchange = SendFailed | NoResponse | ParseFailed | InvalidResponse | RobotId string

datatype sqlite_rc = SQLITE_OK | PrepareError | StepError

record environment =
  ai_engine :: ai_exchange
  sqlite :: sqlite_rc
  current_timestamp :: string
  publish_ok :: bool

text \<open>
  The exceptions, by the message the source builds:
  \<^item> \<open>ValidationError\<close>: \<^verbatim>\<open>std::invalid_argument("Task type cannot be empty")\<close>;
  \<^item> \<open>NotFound t\<close>: "No robot found with capability: t";
  \<^item> \<open>AIQueryFailed e\<close>: "AI engine query failed: " followed by the message of \<open>e\<close>;
  \<^item> \<open>UnknownRobot r\<close>: "Robot r not found";
  \<^item> \<open>InsufficientCapability r c\<close>: "Robot r lacks sufficient c capability";
  \<^item> \<open>PrepareFailed\<close>, \<open>StepFailed\<close>: the two SQLite failures of a statement;
  \<^item> \<open>StoreFailed e\<close>: "Failed to store task: " followed by the message of \<open>e\<close>;
  \<^item> \<open>PublishFailed\<close>: an exception of \<^verbatim>\<open>dump\<close> or \<^verbatim>\<open>publish\<close>;
  \<^item> \<open>TaskNotFound i\<close>: "Task ID i not found".
\<close>

datatype error =
    ValidationError
  | NotFound string
  | AIQueryFailed error
  | UnknownRobot string
  | InsufficientCapability string string
  | PrepareFailed
  | StepFailed
  | StoreFailed error
  | PublishFailed
  | TaskNotFound int

text \<open>
  The object after its constructor, over a database file that holds \<open>rows\<close> and has
  issued ids up to \<open>seq\<close>.
\<close>

definition Orchestrator :: "task_row list \<Rightarrow> int \<Rightarrow> orchestrator" where
  "Orchestrator rows seq =
     \<lparr>robot_capabilities = initial_capabilities, tasks = rows, sqlite_sequence = seq,
      ai_requests = [], published = []\<rparr>"

text \<open>
  The read-only lookup of a strength, as \<^verbatim>\<open>selectRobotByCapability\<close> writes it
  (\<^verbatim>\<open>find\<close>, then \<^verbatim>\<open>at\<close>), and the strength with \<open>0\<close> for a capability the
  robot does not list.
\<close>

definition capabilityOf :: "capabilities \<Rightarrow> string \<Rightarrow> string \<Rightarrow> int option" where
  "capabilityOf table robot cap =
     (case map_of table robot of None \<Rightarrow> None | Some caps \<Rightarrow> map_of caps cap)"

definition strength :: "capabilities \<Rightarrow> string \<Rightarrow> string \<Rightarrow> int" where
  "strength table robot cap = (case capabilityOf table robot cap of None \<Rightarrow> 0 | Some v \<Rightarrow> v)"

subsection \<open>selectRobotByCapability\<close>

text \<open>The loop over the map, with \<^verbatim>\<open>best_robot\<close> and \<^verbatim>\<open>best_score\<close> as accumulator.\<close>

fun select_loop :: "string \<Rightarrow> capabilities \<Rightarrow> string \<times> int \<Rightarrow> string \<times> int" where
  "select_loop t [] best = best"
| "select_loop t ((robot, caps) # rest) (best_robot, best_score) =
     (case map_of caps t of
        None \<Rightarrow> select_loop t rest (best_robot, best_score)
      | Some v \<Rightarrow>
          if v > best_score then select_loop t rest (robot, v)
          else select_loop t rest (best_robot, best_score))"

definition selectRobotByCapability :: "capabilities \<Rightarrow> string \<Rightarrow> error + string" where
  "selectRobotByCapability table t =
     (let best_robot = fst (select_loop t table ([], 0))
      in if best_robot = [] then Inl (NotFound t) else Inr best_robot)"

subsection \<open>queryAIEngine\<close>

text \<open>
  Every exception inside the \<^verbatim>\<open>try\<close> block is caught and answered by the
  rule-based selection; an exception of that selection leaves the function.
\<close>

definition queryAIEngine ::
  "ai_exchange \<Rightarrow> string \<Rightarrow> orchestrator \<Rightarrow> (error + string) \<times> orchestrator" where
  "queryAIEngine reply t s =
     (case reply of
        SendFailed \<Rightarrow> (selectRobotByCapability (robot_capabilities s) t, s)
      | NoResponse \<Rightarrow>
          (selectRobotByCapability (robot_capabilities s) t,
           s\<lparr>ai_requests := ai_requests s @ [t]\<rparr>)
      | ParseFailed \<Rightarrow>
          (selectRobotByCapability (robot_capabilities s) t,
           s\<lparr>ai_requests := ai_requests s @ [t]\<rparr>)
      | InvalidResponse \<Rightarrow>
          (selectRobotByCapability (robot_capabilities s) t,
           s\<lparr>ai_requests := ai_requests s @ [t]\<rparr>)
      | RobotId r \<Rightarrow> (Inr r, s\<lparr>ai_requests := ai_requests s @ [t]\<rparr>))"

subsection \<open>storeTask\<close>

text \<open>
  The id of a new row of an \<^verbatim>\<open>AUTOINCREMENT\<close> table: \<open>1\<close> for an empty table
  and one more than the largest id otherwise, raised to one more than the recorded
  sequence value; the insertion fails (\<^verbatim>\<open>SQLITE_FULL\<close>) once the largest 64-bit
  id has been used.
\<close>

fun max_rowid :: "task_row \<Rightarrow> task_row list \<Rightarrow> int" where
  "max_rowid r [] = row_id r"
| "max_rowid r (r' # rs) = max (row_id r) (max_rowid r' rs)"

definition MAX_ROWID :: int where
  "MAX_ROWID = 9223372036854775807"

definition new_rowid :: "task_row list \<Rightarrow> int \<Rightarrow> int option" where
  "new_rowid rows seq =
     (case rows of
        [] \<Rightarrow> if seq = MAX_ROWID then None else Some (max 1 (seq + 1))
      | r # rs \<Rightarrow>
          if seq = MAX_ROWID \<or> MAX_ROWID \<le> max_rowid r rs then None
          else Some (max (max_rowid r rs + 1) (seq + 1)))"

text \<open>
  The \<^verbatim>\<open>INSERT\<close>: the three strings are bound as C strings, the id is the one the
  table generates, and \<^verbatim>\<open>created_at\<close> is the default \<^verbatim>\<open>CURRENT_TIMESTAMP\<close>.
\<close>

definition storeTask ::
  "sqlite_rc \<Rightarrow> string \<Rightarrow> string \<Rightarrow> string \<Rightarrow> string \<Rightarrow> orchestrator
     \<Rightarrow> (error + unit) \<times> orchestrator" where
  "storeTask rc now t robot st s =
     (case rc of
        PrepareError \<Rightarrow> (Inl PrepareFailed, s)
      | StepError \<Rightarrow> (Inl StepFailed, s)
      | SQLITE_OK \<Rightarrow>
          (case new_rowid (tasks s) (sqlite_sequence s) of
             None \<Rightarrow> (Inl StepFailed, s)
           | Some n \<Rightarrow>
               (Inr (),
                s\<lparr>tasks := tasks s @
                     [\<lparr>row_id = n, task_type = c_str t, robot_id = c_str robot,
                       status = c_str st, created_at = now\<rparr>],
                   sqlite_sequence := n\<rparr>)))"

subsection \<open>delegateTask\<close>

text \<open>
  \<^verbatim>\<open>robot_capabilities_[robot][cap]\<close>: both subscripts are \<^verbatim>\<open>operator[]\<close> of a
  non-const map. The value read and the table after the read.
\<close>

definition strength_ref :: "string \<Rightarrow> string \<Rightarrow> capabilities \<Rightarrow> int \<times> capabilities" where
  "strength_ref robot cap table =
     (let table1 = subscript robot [] table;
          caps = (case map_of table1 robot of Some m \<Rightarrow> m | None \<Rightarrow> []);
          caps1 = subscript cap 0 caps;
          v = (case map_of caps1 cap of Some x \<Rightarrow> x | None \<Rightarrow> 0)
      in (v, assign robot caps1 table1))"

text \<open>
  The three checks under "Verify robot exists and has capability". In each of the two
  conjunctions the subscript is evaluated only when the comparison of the task type
  holds.
\<close>

definition verify_robot ::
  "string \<Rightarrow> string \<Rightarrow> capabilities \<Rightarrow> (error + unit) \<times> capabilities" where
  "verify_robot robot t table =
     (if map_of table robot = None then (Inl (UnknownRobot robot), table)
      else
        let (hl, table1) =
              (if t = ''heavy_lifting'' then strength_ref robot ''heavy_lifting'' table
               else (0, table))
        in if t = ''heavy_lifting'' \<and> hl < 50
           then (Inl (InsufficientCapability robot ''heavy_lifting''), table1)
           else
             let (dt, table2) =
                   (if t = ''delicate_task'' then strength_ref robot ''delicate_task'' table1
                    else (0, table1))
             in if t = ''delicate_task'' \<and> dt < 50
                then (Inl (InsufficientCapability robot ''delicate_task''), table2)
                else (Inr (), table2))"

text \<open>
  The function returns \<^verbatim>\<open>void\<close>: a call that does not throw yields the unit value.
  An exception leaves the object in the state reached so far.
\<close>

definition delegateTask ::
  "environment \<Rightarrow> string \<Rightarrow> orchestrator \<Rightarrow> (error + unit) \<times> orchestrator" where
  "delegateTask env t s =
     (if t = [] then (Inl ValidationError, s)
      else
        case queryAIEngine (ai_engine env) t s of
          (Inl e, s1) \<Rightarrow> (Inl (AIQueryFailed e), s1)
        | (Inr robot, s1) \<Rightarrow>
            (case verify_robot robot t (robot_capabilities s1) of
               (Inl e, table) \<Rightarrow> (Inl e, s1\<lparr>robot_capabilities := table\<rparr>)
             | (Inr _, table) \<Rightarrow>
                 (case storeTask (sqlite env) (current_timestamp env) t robot ''assigned''
                         (s1\<lparr>robot_capabilities := table\<rparr>) of
                    (Inl e, s2) \<Rightarrow> (Inl (StoreFailed e), s2)
                  | (Inr _, s2) \<Rightarrow>
                      if publish_ok env
                      then (Inr (), s2\<lparr>published := published s2 @ [(robot, t)]\<rparr>)
                      else (Inl PublishFailed, s2))))"

subsection \<open>getTaskStatus\<close>

text \<open>
  The rows of the \<^verbatim>\<open>SELECT\<close>, each as the \<^verbatim>\<open>std::map<std::string, std::string>\<close>
  built in the loop. The parameter is a 32-bit \<^verbatim>\<open>int\<close>.
\<close>

definition row_map :: "task_row \<Rightarrow> (string \<times> string) list" where
  "row_map r =
     [(''created_at'', created_at r), (''id'', to_string (row_id r)),
      (''robot_id'', robot_id r), (''status'', status r), (''task_type'', task_type r)]"

definition getTaskStatus ::
  "sqlite_rc \<Rightarrow> 32 word \<Rightarrow> orchestrator \<Rightarrow> error + (string \<times> string) list list" where
  "getTaskStatus rc task_id s =
     (case rc of
        PrepareError \<Rightarrow> Inl PrepareFailed
      | StepError \<Rightarrow> Inl StepFailed
      | SQLITE_OK \<Rightarrow>
          let result = map row_map (filter (\<lambda>r. row_id r = sint task_id) (tasks s))
          in if result = [] then Inl (TaskNotFound (sint task_id)) else Inr result)"

section \<open>The robot interface (interface.cpp)\<close>

text \<open>
  A driver handle is the address \<^verbatim>\<open>dlopen\<close> returned, \<open>0\<close> for the null pointer.
  The dynamic loader and the file system are collaborators: which files exist, what
  \<^verbatim>\<open>dlopen\<close> returns for a path, and which function \<^verbatim>\<open>dlsym\<close> finds under a name;
  a driver function maps the command and the size of the response buffer to its return
  code and to the text it leaves in the buffer.
\<close>

type_synonym driver_fn = "string \<Rightarrow> nat \<Rightarrow> int \<times> string"

record loader =
  file_exists :: "string \<Rightarrow> bool"
  dlopen :: "string \<Rightarrow> nat"
  dlsym :: "nat \<Rightarrow> string \<Rightarrow> driver_fn option"

record robot_interface =
  driver_handles :: "(string \<times> nat) list"
  robot_driver_map :: "(string \<times> string) list"
  robot_language_map :: "(string \<times> string) list"
  responses :: "string list"

datatype interface_error =
    DriverFileMissing string
  | DriverLoadFailed string
  | FunctionLoadFailed string
  | NoDriverLoaded string
  | NoLanguageMapping string
  | UnsupportedLanguage string
  | DriverExecutionFailed string string

definition initRobotMappings :: "robot_interface \<Rightarrow> robot_interface" where
  "initRobotMappings ri =
     ri\<lparr>robot_driver_map :=
          [(''Ford'', ''backend/c/drivers/ford_driver.so''),
           (''Scion'', ''backend/assembly/drivers/scion_driver.so'')],
        robot_language_map := [(''Ford'', ''KRL''), (''Scion'', ''RAPID'')]\<rparr>"

definition loadDriver :: "loader \<Rightarrow> string \<Rightarrow> interface_error + nat" where
  "loadDriver ld driver_path =
     (let handle = dlopen ld driver_path
      in if handle = 0 then Inl (DriverLoadFailed driver_path) else Inr handle)"


text \<open>
  The loop of the constructor. An exception of the body is caught and logged, and the
  loop goes on. In \<^verbatim>\<open>driver_handles_[robot_id] = loadDriver(driver_path)\<close> the right
  operand is evaluated first (C++17, which the structured bindings require), so a
  failed load inserts nothing.
\<close>

fun load_drivers :: "loader \<Rightarrow> (string \<times> string) list \<Rightarrow> (string \<times> nat) list \<Rightarrow> (string \<times> nat) list" where
  "load_drivers ld [] handles = handles"
| "load_drivers ld ((robot, driver_path) # rest) handles =
     (if \<not> file_exists ld driver_path then load_drivers ld rest handles
      else
        case loadDriver ld driver_path of
          Inl e \<Rightarrow> load_drivers ld rest handles
        | Inr handle \<Rightarrow> load_drivers ld rest (assign robot handle (subscript robot 0 handles)))"

definition load_all :: "loader \<Rightarrow> robot_interface \<Rightarrow> robot_interface" where
  "load_all ld ri = ri\<lparr>driver_handles := load_drivers ld (robot_driver_map ri) (driver_handles ri)\<rparr>"

definition RobotInterface :: "loader \<Rightarrow> robot_interface" where
  "RobotInterface ld =
     load_all ld
       (initRobotMappings
          \<lparr>driver_handles = [], robot_driver_map = [], robot_language_map = [], responses = []\<rparr>)"

definition isRobotAvailable :: "robot_interface \<Rightarrow> string \<Rightarrow> bool" where
  "isRobotAvailable ri robot =
     (map_of (driver_handles ri) robot \<noteq> None \<and> map_of (robot_language_map ri) robot \<noteq> None)"



section \<open>The driver (driver.c)\<close>











section \<open>The best robot of the specification\<close>

text \<open>
  The specification's choice for a capability: a robot of maximum strength among those
  with a positive strength, the least robot id among equals; and the case in which it
  has no choice, no robot having a positive strength for the capability.
\<close>

definition best_robot_for :: "capabilities \<Rightarrow> string \<Rightarrow> string \<Rightarrow> bool" where
  "best_robot_for table t robot =
     (case capabilityOf table robot t of
        None \<Rightarrow> False
      | Some v \<Rightarrow>
          0 < v \<and>
          (\<forall>(r', caps') \<in> set table.
             case map_of caps' t of
               None \<Rightarrow> True
             | Some v' \<Rightarrow> v' \<le> v \<and> (v' = v \<longrightarrow> robot \<le> r')))"

definition no_capable_robot :: "capabilities \<Rightarrow> string \<Rightarrow> bool" where
  "no_capable_robot table t =
     (\<forall>(r, caps) \<in> set table. case map_of caps t of None \<Rightarrow> True | Some v \<Rightarrow> v \<le> 0)"

text \<open>Some robot of the table offers the capability with a strength above \<open>s\<close>.\<close>

definition offers_more :: "string \<Rightarrow> capabilities \<Rightarrow> int \<Rightarrow> bool" where
  "offers_more t table s = (\<exists>r caps v. (r, caps) \<in> set table \<and> map_of caps t = Some v \<and> s < v)"

section \<open>The minimum-strength policy of the specification\<close>

text \<open>
  The specification reads the two comparisons of \<^verbatim>\<open>delegateTask\<close> as one table from
  capability to minimum strength, \<open>0\<close> for a capability the table does not list.
\<close>

definition minimum_strength :: "(string \<times> int) list \<Rightarrow> string \<Rightarrow> int" where
  "minimum_strength policy cap = (case map_of policy cap of None \<Rightarrow> 0 | Some m \<Rightarrow> m)"

definition reference_policy :: "(string \<times> int) list" where
  "reference_policy = [(''heavy_lifting'', 50), (''delicate_task'', 50)]"

section \<open>Lookups after a subscript\<close>

lemma map_of_insert_sorted:
  "map_of m k = None \<Longrightarrow> map_of (insert_sorted k d m) = (map_of m)(k \<mapsto> d)"
  by (induction m) (auto simp: fun_eq_iff split: if_splits)

lemma map_of_subscript_same:
  "map_of (subscript k d m) k = Some (case map_of m k of None \<Rightarrow> d | Some v \<Rightarrow> v)"
  by (cases "map_of m k") (simp_all add: subscript_def map_of_insert_sorted)

lemma map_of_subscript_other:
  "k' \<noteq> k \<Longrightarrow> map_of (subscript k d m) k' = map_of m k'"
  by (simp add: subscript_def map_of_insert_sorted)

lemma map_of_assign:
  "map_of (assign k v m) k' = (if k' = k \<and> map_of m k \<noteq> None then Some v else map_of m k')"
  by (induction m) auto

lemma fst_strength_ref: "fst (strength_ref robot cap table) = strength table robot cap"
  by (simp add: strength_ref_def strength_def capabilityOf_def Let_def map_of_subscript_same
      split: option.splits)

lemma Orchestrator_simps:
  "robot_capabilities (Orchestrator rows seq) = initial_capabilities"
  "tasks (Orchestrator rows seq) = rows"
  "sqlite_sequence (Orchestrator rows seq) = seq"
  "ai_requests (Orchestrator rows seq) = []"
  "published (Orchestrator rows seq) = []"
  by (simp_all add: Orchestrator_def)

section \<open>The steps of delegateTask\<close>

lemma queryAIEngine_capabilities:
  "robot_capabilities (snd (queryAIEngine reply t s)) = robot_capabilities s"
  by (cases reply) (simp_all add: queryAIEngine_def)

lemma verify_robot_error:
  "fst (verify_robot robot t table) = Inl e \<Longrightarrow>
     e = UnknownRobot robot \<or> e = InsufficientCapability robot t"
  by (auto simp: verify_robot_def Let_def split: if_splits prod.splits)

lemma storeTask_tasks:
  "storeTask rc now t robot st s = (Inr u, s') \<Longrightarrow>
     \<exists>n. new_rowid (tasks s) (sqlite_sequence s) = Some n \<and>
       tasks s' = tasks s @
         [\<lparr>row_id = n, task_type = c_str t, robot_id = c_str robot, status = c_str st,
           created_at = now\<rparr>] \<and>
       robot_capabilities s' = robot_capabilities s"
  by (auto simp: storeTask_def split: sqlite_rc.splits option.splits)

lemma storeTask_ok:
  "new_rowid (tasks s) (sqlite_sequence s) = Some n \<Longrightarrow>
   fst (storeTask SQLITE_OK now t robot st s) = Inr ()"
  by (simp add: storeTask_def)

lemma c_str_assigned: "c_str ''assigned'' = ''assigned''"
  by (simp add: c_str_def)

lemma max_rowid_ge: "x \<in> set (r # rs) \<Longrightarrow> row_id x \<le> max_rowid r rs"
  by (induction r rs rule: max_rowid.induct) auto

text \<open>A table whose ids and sequence value are negative.\<close>

lemma new_rowid_negative_ids:
  "new_rowid
     [\<lparr>row_id = - 5, task_type = ''a'', robot_id = ''Ford'', status = ''assigned'',
       created_at = ''now''\<rparr>] (- 10) = Some (- 4)"
  by (simp add: new_rowid_def MAX_ROWID_def)

lemma new_rowid_fresh:
  "new_rowid rows seq = Some n \<Longrightarrow> x \<in> set rows \<Longrightarrow> row_id x < n"
  using max_rowid_ge [of x]
  by (cases rows) (fastforce simp: new_rowid_def split: if_splits)+

lemma c_str_id: "CHR 0x00 \<notin> set s \<Longrightarrow> c_str s = s"
  by (auto simp: c_str_def takeWhile_eq_all_conv)

lemma queryAIEngine_database:
  "tasks (snd (queryAIEngine reply t s)) = tasks s"
  "sqlite_sequence (snd (queryAIEngine reply t s)) = sqlite_sequence s"
  by (cases reply; simp add: queryAIEngine_def)+

lemma delegateTask_success:
  assumes "delegateTask env t s = (Inr (), s')"
  shows "\<exists>robot n. fst (queryAIEngine (ai_engine env) t s) = Inr robot \<and>
     new_rowid (tasks s) (sqlite_sequence s) = Some n \<and>
     tasks s' = tasks s @
       [\<lparr>row_id = n, task_type = c_str t, robot_id = c_str robot, status = ''assigned'',
         created_at = current_timestamp env\<rparr>]"
proof -
  have t: "t \<noteq> []" using assms by (auto simp: delegateTask_def)
  obtain q s1 where q: "queryAIEngine (ai_engine env) t s = (q, s1)"
    by (cases "queryAIEngine (ai_engine env) t s")
  then obtain robot where robot: "q = Inr robot"
    using assms t by (cases q) (auto simp: delegateTask_def)
  have s1: "tasks s1 = tasks s" "sqlite_sequence s1 = sqlite_sequence s"
    using queryAIEngine_database [of "ai_engine env" t s] q by simp_all
  obtain v table where v: "verify_robot robot t (robot_capabilities s1) = (v, table)"
    by (cases "verify_robot robot t (robot_capabilities s1)")
  then have ok: "v = Inr ()"
    using assms t q robot by (cases v) (auto simp: delegateTask_def)
  obtain r s2 where st: "storeTask (sqlite env) (current_timestamp env) t robot ''assigned''
      (s1\<lparr>robot_capabilities := table\<rparr>) = (r, s2)"
    by (cases "storeTask (sqlite env) (current_timestamp env) t robot ''assigned''
      (s1\<lparr>robot_capabilities := table\<rparr>)")
  then have stored: "r = Inr ()" and s': "tasks s' = tasks s2"
    using assms t q robot v ok by (cases r; auto simp: delegateTask_def split: if_splits)+
  from storeTask_tasks [OF st [unfolded stored]] s1 s' obtain n where
    "new_rowid (tasks s) (sqlite_sequence s) = Some n"
    "tasks s' = tasks s @
       [\<lparr>row_id = n, task_type = c_str t, robot_id = c_str robot, status = ''assigned'',
         created_at = current_timestamp env\<rparr>]"
    by (auto simp: c_str_assigned)
  then show ?thesis using q robot by auto
qed

lemma delegateTask_after_selection:
  assumes "t \<noteq> []" and "queryAIEngine (ai_engine env) t s = (Inr robot, s1)"
  shows "fst (delegateTask env t s) =
     (case verify_robot robot t (robot_capabilities s) of
        (Inl e, table) \<Rightarrow> Inl e
      | (Inr u, table) \<Rightarrow>
          (case fst (storeTask (sqlite env) (current_timestamp env) t robot ''assigned'' s) of
             Inl e \<Rightarrow> Inl (StoreFailed e)
           | Inr u \<Rightarrow> if publish_ok env then Inr () else Inl PublishFailed))"
proof -
  have s1: "robot_capabilities s1 = robot_capabilities s" "tasks s1 = tasks s"
    "sqlite_sequence s1 = sqlite_sequence s"
    using assms(2) by (cases "ai_engine env"; auto simp: queryAIEngine_def)+
  have store: "fst (storeTask rc now t robot st (s1\<lparr>robot_capabilities := table\<rparr>)) =
      fst (storeTask rc now t robot st s)" for rc now st table
    using s1 by (cases rc) (simp_all add: storeTask_def split: option.splits)
  obtain v table where v: "verify_robot robot t (robot_capabilities s) = (v, table)"
    by (cases "verify_robot robot t (robot_capabilities s)")
  obtain r s2 where st:
    "storeTask (sqlite env) (current_timestamp env) t robot ''assigned''
       (s1\<lparr>robot_capabilities := table\<rparr>) = (r, s2)"
    by (cases "storeTask (sqlite env) (current_timestamp env) t robot ''assigned''
       (s1\<lparr>robot_capabilities := table\<rparr>)")
  have r: "fst (storeTask (sqlite env) (current_timestamp env) t robot ''assigned'' s) = r"
    using store [of "sqlite env" "current_timestamp env" "''assigned''" table] st by simp
  show ?thesis
    using assms v st by (cases v; cases r) (simp_all add: delegateTask_def s1 r)
qed

lemma queryAIEngine_fallback:
  "\<forall>r. reply \<noteq> RobotId r \<Longrightarrow>
     fst (queryAIEngine reply t s) = selectRobotByCapability (robot_capabilities s) t"
  by (cases reply) (simp_all add: queryAIEngine_def)

lemma queryAIEngine_reply: "fst (queryAIEngine (RobotId r) t s) = Inr r"
  by (simp add: queryAIEngine_def)

lemma selectRobotByCapability_error:
  "selectRobotByCapability table t = Inl e \<Longrightarrow> e = NotFound t"
  by (auto simp: selectRobotByCapability_def Let_def split: if_splits)

lemma map_fst_assign: "map fst (assign k v m) = map fst m"
  by (induction m) auto

lemma strength_ref_robots:
  "map_of table robot \<noteq> None \<Longrightarrow> map fst (snd (strength_ref robot cap table)) = map fst table"
  by (auto simp: strength_ref_def Let_def subscript_def map_fst_assign)

lemma verify_robot_robots: "map fst (snd (verify_robot robot t table)) = map fst table"
  by (auto simp: verify_robot_def Let_def split: prod.splits
      dest!: arg_cong [where f = "\<lambda>p. map fst (snd p)"] simp: strength_ref_robots)

lemma delegateTask_robots:
  "map fst (robot_capabilities (snd (delegateTask env t s))) = map fst (robot_capabilities s)"
proof (cases "t = []")
  case True
  then show ?thesis by (simp add: delegateTask_def)
next
  case False
  obtain q s1 where q: "queryAIEngine (ai_engine env) t s = (q, s1)"
    by (cases "queryAIEngine (ai_engine env) t s")
  have s1: "robot_capabilities s1 = robot_capabilities s"
    using queryAIEngine_capabilities [of "ai_engine env" t s] q by simp
  show ?thesis
  proof (cases q)
    case (Inl e)
    then show ?thesis using False q s1 by (simp add: delegateTask_def)
  next
    case (Inr robot)
    obtain v table where v: "verify_robot robot t (robot_capabilities s1) = (v, table)"
      by (cases "verify_robot robot t (robot_capabilities s1)")
    have table: "map fst table = map fst (robot_capabilities s)"
      using verify_robot_robots [of robot t "robot_capabilities s1"] v s1 by simp
    obtain r s2 where st: "storeTask (sqlite env) (current_timestamp env) t robot ''assigned''
        (s1\<lparr>robot_capabilities := table\<rparr>) = (r, s2)"
      by (cases "storeTask (sqlite env) (current_timestamp env) t robot ''assigned''
        (s1\<lparr>robot_capabilities := table\<rparr>)")
    have s2: "robot_capabilities s2 = table"
      using st by (auto simp: storeTask_def split: sqlite_rc.splits option.splits)
    show ?thesis
      using False q Inr v st s2 table
      by (cases v; cases r) (simp_all add: delegateTask_def)
  qed
qed

text \<open>
  The robot ids of the table hold no NUL byte: those of the initial table do not, and
  \<^verbatim>\<open>delegateTask\<close> keeps the list of robots.
\<close>

lemma initial_capabilities_nul_free:
  "\<forall>r \<in> set (map fst initial_capabilities). CHR 0x00 \<notin> set r"
  by (simp add: initial_capabilities_def)

lemma delegateTask_keeps_nul_free:
  "\<forall>r \<in> set (map fst (robot_capabilities s)). CHR 0x00 \<notin> set r \<Longrightarrow>
   \<forall>r \<in> set (map fst (robot_capabilities (snd (delegateTask env t s)))). CHR 0x00 \<notin> set r"
  by (simp only: delegateTask_robots)

lemma verify_robot_known:
  "fst (verify_robot robot t table) = Inr () \<Longrightarrow> robot \<in> set (map fst table)"
proof (cases "map_of table robot")
  case None
  moreover assume "fst (verify_robot robot t table) = Inr ()"
  ultimately show ?thesis by (simp add: verify_robot_def)
next
  case (Some caps)
  then have "(robot, caps) \<in> set table" by (rule map_of_SomeD)
  then show ?thesis by force
qed

section \<open>The capability checks of delegateTask\<close>

lemma verify_robot_result:
  assumes "map_of table robot \<noteq> None"
  shows "fst (verify_robot robot t table) =
           (if (t = ''heavy_lifting'' \<or> t = ''delicate_task'') \<and> strength table robot t < 50
            then Inl (InsufficientCapability robot t) else Inr ())"
  using assms fst_strength_ref [of robot "''heavy_lifting''" table]
    fst_strength_ref [of robot "''delicate_task''" table]
  by (auto simp: verify_robot_def Let_def split: prod.splits)

lemma minimum_strength_reference:
  "minimum_strength reference_policy t =
     (if t = ''heavy_lifting'' \<or> t = ''delicate_task'' then 50 else 0)"
  by (simp add: minimum_strength_def reference_policy_def)

text \<open>
  Claim C1. Let \<open>robot\<close> be the robot that \<^verbatim>\<open>queryAIEngine\<close> selects for a
  non-empty task type, by the reply of the AI engine or by the fallback, and let it be a
  robot of the capability table with a strength of the data model (not negative) for
  the task type. Then \<^verbatim>\<open>delegateTask\<close> throws the insufficient-capability error
  exactly when that strength is below the minimum that the policy of the two hardcoded
  entries gives the task type: 50 for \<^verbatim>\<open>heavy_lifting\<close>, 50 for
  \<^verbatim>\<open>delicate_task\<close>, and 0 for every other capability.
\<close>

theorem delegateTask_minimum_strength:
  assumes "t \<noteq> []"
    and "fst (queryAIEngine (ai_engine env) t s) = Inr robot"
    and "map_of (robot_capabilities s) robot \<noteq> None"
    and "0 \<le> strength (robot_capabilities s) robot t"
  shows "fst (delegateTask env t s) = Inl (InsufficientCapability robot t) \<longleftrightarrow>
         strength (robot_capabilities s) robot t < minimum_strength reference_policy t"
proof -
  obtain s1 where q: "queryAIEngine (ai_engine env) t s = (Inr robot, s1)"
    using assms(2) by (cases "queryAIEngine (ai_engine env) t s") simp
  let ?low = "(t = ''heavy_lifting'' \<or> t = ''delicate_task'') \<and>
      strength (robot_capabilities s) robot t < 50"
  have policy: "strength (robot_capabilities s) robot t < minimum_strength reference_policy t
      \<longleftrightarrow> ?low"
    using assms(4) by (auto simp: minimum_strength_reference)
  obtain r table where v: "verify_robot robot t (robot_capabilities s) = (r, table)"
    by (cases "verify_robot robot t (robot_capabilities s)")
  have r: "r = (if ?low then Inl (InsufficientCapability robot t) else Inr ())"
    using verify_robot_result [OF assms(3), of t] v by simp
  note after = delegateTask_after_selection [OF assms(1) q]
  show ?thesis
  proof (cases ?low)
    case True
    then have "fst (delegateTask env t s) = Inl (InsufficientCapability robot t)"
      using after v r by simp
    then show ?thesis using policy True by simp
  next
    case False
    then have "fst (delegateTask env t s) \<noteq> Inl (InsufficientCapability robot t)"
      using after v r by (auto split: sum.splits)
    then show ?thesis using policy False by simp
  qed
qed

theorem delegateTask_minimum_strength_witness:
  "''heavy_lifting'' \<noteq> [] \<and>
   fst (queryAIEngine (RobotId ''Scion'') ''heavy_lifting'' (Orchestrator [] 0)) = Inr ''Scion'' \<and>
   map_of (robot_capabilities (Orchestrator [] 0)) ''Scion'' \<noteq> None \<and>
   0 \<le> strength (robot_capabilities (Orchestrator [] 0)) ''Scion'' ''heavy_lifting'' \<and>
   strength (robot_capabilities (Orchestrator [] 0)) ''Scion'' ''heavy_lifting''
     < minimum_strength reference_policy ''heavy_lifting'' \<and>
   fst (delegateTask
          \<lparr>ai_engine = RobotId ''Scion'', sqlite = SQLITE_OK,
           current_timestamp = ''2024-01-01 00:00:00'', publish_ok = True\<rparr>
          ''heavy_lifting'' (Orchestrator [] 0))
     = Inl (InsufficientCapability ''Scion'' ''heavy_lifting'') \<and>
   fst (queryAIEngine NoResponse ''heavy_lifting''
          \<lparr>robot_capabilities = [(''Ford'', [(''heavy_lifting'', 30)])], tasks = [],
           sqlite_sequence = 0, ai_requests = [], published = []\<rparr>) = Inr ''Ford'' \<and>
   fst (delegateTask
          \<lparr>ai_engine = NoResponse, sqlite = SQLITE_OK,
           current_timestamp = ''2024-01-01 00:00:00'', publish_ok = True\<rparr>
          ''heavy_lifting''
          \<lparr>robot_capabilities = [(''Ford'', [(''heavy_lifting'', 30)])], tasks = [],
           sqlite_sequence = 0, ai_requests = [], published = []\<rparr>)
     = Inl (InsufficientCapability ''Ford'' ''heavy_lifting'')"
proof -
  let ?env = "\<lparr>ai_engine = RobotId ''Scion'', sqlite = SQLITE_OK,
           current_timestamp = ''2024-01-01 00:00:00'', publish_ok = True\<rparr>"
  let ?down = "\<lparr>ai_engine = NoResponse, sqlite = SQLITE_OK,
           current_timestamp = ''2024-01-01 00:00:00'', publish_ok = True\<rparr>"
  let ?weak = "\<lparr>robot_capabilities = [(''Ford'', [(''heavy_lifting'', 30)])], tasks = [],
           sqlite_sequence = 0, ai_requests = [], published = []\<rparr>"
  have f2: "fst (queryAIEngine (ai_engine ?down) ''heavy_lifting'' ?weak) = Inr ''Ford''"
    by (simp add: queryAIEngine_def selectRobotByCapability_def)
  have f3: "map_of (robot_capabilities ?weak) ''Ford'' \<noteq> None"
    by simp
  have f4: "0 \<le> strength (robot_capabilities ?weak) ''Ford'' ''heavy_lifting''"
    by (simp add: strength_def capabilityOf_def)
  have flow: "strength (robot_capabilities ?weak) ''Ford'' ''heavy_lifting''
     < minimum_strength reference_policy ''heavy_lifting''"
    by (simp add: strength_def capabilityOf_def minimum_strength_def reference_policy_def)
  have h1: "''heavy_lifting'' \<noteq> []" by simp
  have h2: "fst (queryAIEngine (ai_engine ?env) ''heavy_lifting'' (Orchestrator [] 0)) = Inr ''Scion''"
    by (simp add: queryAIEngine_def)
  have h3: "map_of (robot_capabilities (Orchestrator [] 0)) ''Scion'' \<noteq> None"
    by (simp add: Orchestrator_simps initial_capabilities_def)
  have h4: "0 \<le> strength (robot_capabilities (Orchestrator [] 0)) ''Scion'' ''heavy_lifting''"
    by (simp add: Orchestrator_simps initial_capabilities_def strength_def capabilityOf_def)
  have low: "strength (robot_capabilities (Orchestrator [] 0)) ''Scion'' ''heavy_lifting''
     < minimum_strength reference_policy ''heavy_lifting''"
    by (simp add: Orchestrator_simps initial_capabilities_def strength_def capabilityOf_def
        minimum_strength_def reference_policy_def)
  from delegateTask_minimum_strength [OF h1 h2 h3 h4]
    delegateTask_minimum_strength [OF h1 f2 f3 f4] h1 h2 h3 h4 low f2 flow
  show ?thesis by simp
qed

section \<open>The capability table under delegateTask\<close>

text \<open>
  Claim C9 says that no call of \<^verbatim>\<open>delegateTask\<close> changes a robot's set of
  capabilities. The subscripts of the two comparisons insert: when the AI engine
  recommends Scion for \<^verbatim>\<open>heavy_lifting\<close>, the call throws and leaves Scion with
  the new capability \<^verbatim>\<open>heavy_lifting\<close> of strength 0.
\<close>

theorem delegateTask_inserts_capability:
  "robot_capabilities
     (snd (delegateTask
             \<lparr>ai_engine = RobotId ''Scion'', sqlite = SQLITE_OK,
              current_timestamp = ''2024-01-01 00:00:00'', publish_ok = True\<rparr>
             ''heavy_lifting'' (Orchestrator [] 0)))
     = [(''Ford'', [(''heavy_lifting'', 90), (''navigation'', 70)]),
        (''Scion'', [(''delicate_task'', 85), (''heavy_lifting'', 0), (''navigation'', 80)])] \<and>
   capabilityOf (robot_capabilities (Orchestrator [] 0)) ''Scion'' ''heavy_lifting'' = None \<and>
   capabilityOf
     (robot_capabilities
        (snd (delegateTask
                \<lparr>ai_engine = RobotId ''Scion'', sqlite = SQLITE_OK,
                 current_timestamp = ''2024-01-01 00:00:00'', publish_ok = True\<rparr>
                ''heavy_lifting'' (Orchestrator [] 0))))
     ''Scion'' ''heavy_lifting'' = Some 0"
  by (simp add: delegateTask_def queryAIEngine_def verify_robot_def strength_ref_def
      subscript_def Orchestrator_def initial_capabilities_def capabilityOf_def)

section \<open>The row that delegateTask stores\<close>

text \<open>
  Claim C2, for the function as it is written. For a non-empty task type without a NUL
  byte whose selection and capability checks pass, with the database accepting the
  insertion under the generated id \<open>n\<close>, \<^verbatim>\<open>delegateTask\<close> appends one row: its id
  is \<open>n\<close>, above every id of the table, its task type and robot id are the task type
  passed and the robot selected, its status is \<^verbatim>\<open>assigned\<close>. The function returns
  nothing: its result is the unit value, or the exception of the publication that
  follows the insertion.
\<close>

theorem delegateTask_appends_row:
  assumes "t \<noteq> []"
    and "CHR 0x00 \<notin> set t"
    and "\<forall>r \<in> set (map fst (robot_capabilities s)). CHR 0x00 \<notin> set r"
    and "fst (queryAIEngine (ai_engine env) t s) = Inr robot"
    and "fst (verify_robot robot t (robot_capabilities s)) = Inr ()"
    and "sqlite env = SQLITE_OK"
    and "new_rowid (tasks s) (sqlite_sequence s) = Some n"
  shows "tasks (snd (delegateTask env t s)) =
           tasks s @
             [\<lparr>row_id = n, task_type = t, robot_id = robot, status = ''assigned'',
               created_at = current_timestamp env\<rparr>] \<and>
         (\<forall>r \<in> set (tasks s). row_id r < n) \<and>
         fst (delegateTask env t s) = (if publish_ok env then Inr () else Inl PublishFailed)"
proof -
  obtain s1 where q: "queryAIEngine (ai_engine env) t s = (Inr robot, s1)"
    using assms(4) by (cases "queryAIEngine (ai_engine env) t s") simp
  have s1: "robot_capabilities s1 = robot_capabilities s" "tasks s1 = tasks s"
    "sqlite_sequence s1 = sqlite_sequence s"
    using q by (cases "ai_engine env"; auto simp: queryAIEngine_def)+
  obtain table where v: "verify_robot robot t (robot_capabilities s1) = (Inr (), table)"
    using assms(5) s1(1) by (cases "verify_robot robot t (robot_capabilities s)") simp
  have "CHR 0x00 \<notin> set robot"
    using verify_robot_known [OF assms(5)] assms(3) by blast
  then have robot: "c_str robot = robot"
    by (rule c_str_id)
  have t: "c_str t = t"
    using assms(2) by (rule c_str_id)
  let ?s2 = "s1\<lparr>robot_capabilities := table\<rparr>"
  have "fst (storeTask (sqlite env) (current_timestamp env) t robot ''assigned'' ?s2) = Inr ()"
    using storeTask_ok [of ?s2 n] assms(6,7) s1 by simp
  then obtain s3 where st:
    "storeTask (sqlite env) (current_timestamp env) t robot ''assigned'' ?s2 = (Inr (), s3)"
    by (cases "storeTask (sqlite env) (current_timestamp env) t robot ''assigned'' ?s2") simp
  from storeTask_tasks [OF st] s1 assms(7) have
    "tasks s3 = tasks s @
       [\<lparr>row_id = n, task_type = t, robot_id = robot, status = ''assigned'',
         created_at = current_timestamp env\<rparr>]"
    by (auto simp: c_str_assigned robot t)
  moreover have "\<forall>r \<in> set (tasks s). row_id r < n"
    using new_rowid_fresh [OF assms(7)] by blast
  ultimately show ?thesis
    using assms(1) q v st by (simp add: delegateTask_def)
qed

theorem delegateTask_appends_row_witness:
  "tasks (snd (delegateTask
          \<lparr>ai_engine = NoResponse, sqlite = SQLITE_OK,
           current_timestamp = ''2024-01-01 00:00:00'', publish_ok = True\<rparr>
          ''heavy_lifting'' (Orchestrator [] 0)))
     = [\<lparr>row_id = 1, task_type = ''heavy_lifting'', robot_id = ''Ford'', status = ''assigned'',
         created_at = ''2024-01-01 00:00:00''\<rparr>] \<and>
   fst (delegateTask
          \<lparr>ai_engine = NoResponse, sqlite = SQLITE_OK,
           current_timestamp = ''2024-01-01 00:00:00'', publish_ok = True\<rparr>
          ''heavy_lifting'' (Orchestrator [] 0)) = Inr ()"
proof -
  let ?env = "\<lparr>ai_engine = NoResponse, sqlite = SQLITE_OK,
           current_timestamp = ''2024-01-01 00:00:00'', publish_ok = True\<rparr>"
  let ?s = "Orchestrator [] 0"
  have h1: "''heavy_lifting'' \<noteq> []" by simp
  have h2: "CHR 0x00 \<notin> set ''heavy_lifting''" by simp
  have h3: "\<forall>r \<in> set (map fst (robot_capabilities ?s)). CHR 0x00 \<notin> set r"
    by (simp add: Orchestrator_simps initial_capabilities_def)
  have h4: "fst (queryAIEngine (ai_engine ?env) ''heavy_lifting'' ?s) = Inr ''Ford''"
    by (simp add: queryAIEngine_def selectRobotByCapability_def Orchestrator_simps
        initial_capabilities_def)
  have h5: "fst (verify_robot ''Ford'' ''heavy_lifting'' (robot_capabilities ?s)) = Inr ()"
    by (simp add: verify_robot_def strength_ref_def subscript_def Orchestrator_simps
        initial_capabilities_def)
  have h6: "sqlite ?env = SQLITE_OK" by simp
  have h7: "new_rowid (tasks ?s) (sqlite_sequence ?s) = Some 1"
    by (simp add: Orchestrator_simps new_rowid_def MAX_ROWID_def)
  from delegateTask_appends_row [OF h1 h2 h3 h4 h5 h6 h7]
  show ?thesis by (simp add: Orchestrator_simps)
qed

text \<open>
  Claim C2 as stated has \<^verbatim>\<open>delegateTask\<close> return the record, and the record hold
  the task type passed. Two calls that store different rows return the same unit
  value; and a call whose task type holds a NUL byte stores a row with another task
  type than the one passed, the one it publishes.
\<close>

theorem delegateTask_returns_no_record:
  "fst (delegateTask
          \<lparr>ai_engine = NoResponse, sqlite = SQLITE_OK,
           current_timestamp = ''2024-01-01 00:00:00'', publish_ok = True\<rparr>
          ''heavy_lifting'' (Orchestrator [] 0)) = Inr () \<and>
   fst (delegateTask
          \<lparr>ai_engine = NoResponse, sqlite = SQLITE_OK,
           current_timestamp = ''2024-01-01 00:00:00'', publish_ok = True\<rparr>
          ''navigation'' (Orchestrator [] 0)) = Inr () \<and>
   task_type (last (tasks (snd (delegateTask
          \<lparr>ai_engine = NoResponse, sqlite = SQLITE_OK,
           current_timestamp = ''2024-01-01 00:00:00'', publish_ok = True\<rparr>
          ''heavy_lifting'' (Orchestrator [] 0))))) = ''heavy_lifting'' \<and>
   task_type (last (tasks (snd (delegateTask
          \<lparr>ai_engine = NoResponse, sqlite = SQLITE_OK,
           current_timestamp = ''2024-01-01 00:00:00'', publish_ok = True\<rparr>
          ''navigation'' (Orchestrator [] 0))))) = ''navigation'' \<and>
   fst (delegateTask
          \<lparr>ai_engine = RobotId ''Ford'', sqlite = SQLITE_OK,
           current_timestamp = ''2024-01-01 00:00:00'', publish_ok = True\<rparr>
          (''nav'' @ [CHR 0x00] @ ''x'') (Orchestrator [] 0)) = Inr () \<and>
   task_type (last (tasks (snd (delegateTask
          \<lparr>ai_engine = RobotId ''Ford'', sqlite = SQLITE_OK,
           current_timestamp = ''2024-01-01 00:00:00'', publish_ok = True\<rparr>
          (''nav'' @ [CHR 0x00] @ ''x'') (Orchestrator [] 0))))) = ''nav'' \<and>
   ''nav'' \<noteq> ''nav'' @ [CHR 0x00] @ ''x''"
  by (simp add: delegateTask_def queryAIEngine_def selectRobotByCapability_def verify_robot_def
      strength_ref_def subscript_def storeTask_def new_rowid_def MAX_ROWID_def c_str_def
      Orchestrator_def initial_capabilities_def)

section \<open>The fallback of the AI engine query\<close>

text \<open>
  Claim C3. When the exchange with the AI engine yields no robot id (send failure, no
  response, unparsable reply, reply without a string \<^verbatim>\<open>robot_id\<close>), the robot is
  the one \<^verbatim>\<open>selectRobotByCapability\<close> gives; \<^verbatim>\<open>delegateTask\<close> then ends as it
  would had the engine recommended that robot, so the failure of the exchange does not
  reach the caller; and it throws the no-robot error exactly when the fallback finds no
  robot.
\<close>

theorem delegateTask_fallback:
  assumes "t \<noteq> []" and "\<forall>r. ai_engine env \<noteq> RobotId r"
  shows "fst (queryAIEngine (ai_engine env) t s) =
           selectRobotByCapability (robot_capabilities s) t \<and>
         fst (delegateTask env t s) =
           (case selectRobotByCapability (robot_capabilities s) t of
              Inl e \<Rightarrow> Inl (AIQueryFailed (NotFound t))
            | Inr robot \<Rightarrow> fst (delegateTask (env\<lparr>ai_engine := RobotId robot\<rparr>) t s)) \<and>
         ((\<exists>e. fst (delegateTask env t s) = Inl (AIQueryFailed e)) \<longleftrightarrow>
            selectRobotByCapability (robot_capabilities s) t = Inl (NotFound t))"
proof -
  let ?sel = "selectRobotByCapability (robot_capabilities s) t"
  have q: "fst (queryAIEngine (ai_engine env) t s) = ?sel"
    using assms(2) by (rule queryAIEngine_fallback)
  show ?thesis
  proof (cases ?sel)
    case (Inl e)
    then have e: "e = NotFound t" by (rule selectRobotByCapability_error)
    obtain s1 where "queryAIEngine (ai_engine env) t s = (Inl (NotFound t), s1)"
      using q Inl e by (cases "queryAIEngine (ai_engine env) t s") simp
    then have "fst (delegateTask env t s) = Inl (AIQueryFailed (NotFound t))"
      using assms(1) by (simp add: delegateTask_def)
    then show ?thesis using q Inl e by simp
  next
    case (Inr robot)
    obtain s1 where q1: "queryAIEngine (ai_engine env) t s = (Inr robot, s1)"
      using q Inr by (cases "queryAIEngine (ai_engine env) t s") simp
    obtain s2 where q2:
      "queryAIEngine (ai_engine (env\<lparr>ai_engine := RobotId robot\<rparr>)) t s = (Inr robot, s2)"
      by (simp add: queryAIEngine_def)
    have upd: "sqlite (env\<lparr>ai_engine := RobotId robot\<rparr>) = sqlite env"
      "current_timestamp (env\<lparr>ai_engine := RobotId robot\<rparr>) = current_timestamp env"
      "publish_ok (env\<lparr>ai_engine := RobotId robot\<rparr>) = publish_ok env"
      by simp_all
    have same:
      "fst (delegateTask env t s) = fst (delegateTask (env\<lparr>ai_engine := RobotId robot\<rparr>) t s)"
      unfolding delegateTask_after_selection [OF assms(1) q1]
        delegateTask_after_selection [OF assms(1) q2] upd
      by (rule refl)
    have "fst (delegateTask env t s) \<noteq> Inl (AIQueryFailed e)" for e
      using delegateTask_after_selection [OF assms(1) q1]
        verify_robot_error [of robot t "robot_capabilities s"]
      by (auto split: prod.splits sum.splits if_splits)
    then show ?thesis using q Inr same by simp
  qed
qed

theorem delegateTask_fallback_witness:
  "fst (delegateTask
          \<lparr>ai_engine = NoResponse, sqlite = SQLITE_OK,
           current_timestamp = ''2024-01-01 00:00:00'', publish_ok = True\<rparr>
          ''heavy_lifting'' (Orchestrator [] 0)) = Inr () \<and>
   fst (delegateTask
          \<lparr>ai_engine = InvalidResponse, sqlite = SQLITE_OK,
           current_timestamp = ''2024-01-01 00:00:00'', publish_ok = True\<rparr>
          ''unknown_capability'' (Orchestrator [] 0))
     = Inl (AIQueryFailed (NotFound ''unknown_capability''))"
proof -
  let ?down = "\<lparr>ai_engine = NoResponse, sqlite = SQLITE_OK,
           current_timestamp = ''2024-01-01 00:00:00'', publish_ok = True\<rparr>"
  let ?bad = "\<lparr>ai_engine = InvalidResponse, sqlite = SQLITE_OK,
           current_timestamp = ''2024-01-01 00:00:00'', publish_ok = True\<rparr>"
  let ?s = "Orchestrator [] 0"
  have h1: "''heavy_lifting'' \<noteq> []" and h1': "''unknown_capability'' \<noteq> []" by simp_all
  have h2: "\<forall>r. ai_engine ?down \<noteq> RobotId r" and h2': "\<forall>r. ai_engine ?bad \<noteq> RobotId r"
    by simp_all
  have sel: "selectRobotByCapability (robot_capabilities ?s) ''heavy_lifting'' = Inr ''Ford''"
    by (simp add: selectRobotByCapability_def Orchestrator_simps initial_capabilities_def)
  have sel': "selectRobotByCapability (robot_capabilities ?s) ''unknown_capability''
      = Inl (NotFound ''unknown_capability'')"
    by (simp add: selectRobotByCapability_def Orchestrator_simps initial_capabilities_def)
  have ford: "fst (delegateTask (?down\<lparr>ai_engine := RobotId ''Ford''\<rparr>) ''heavy_lifting'' ?s) = Inr ()"
    by (simp add: delegateTask_def queryAIEngine_def verify_robot_def strength_ref_def
        subscript_def storeTask_def new_rowid_def MAX_ROWID_def Orchestrator_def
        initial_capabilities_def)
  from delegateTask_fallback [OF h1 h2, of ?s] delegateTask_fallback [OF h1' h2', of ?s]
  show ?thesis by (simp only: sel sel' ford sum.case)
qed

section \<open>Validation\<close>

text \<open>
  Claim C6. \<^verbatim>\<open>delegateTask\<close> of the empty task type throws the validation error
  and leaves the whole state as it was: no request to the AI engine, no row, no message
  on the task channel, whatever the collaborators would have done.
\<close>

theorem delegateTask_empty:
  "delegateTask env [] s = (Inl ValidationError, s) \<and>
   ai_requests (snd (delegateTask env [] s)) = ai_requests s \<and>
   tasks (snd (delegateTask env [] s)) = tasks s \<and>
   sqlite_sequence (snd (delegateTask env [] s)) = sqlite_sequence s \<and>
   published (snd (delegateTask env [] s)) = published s \<and>
   robot_capabilities (snd (delegateTask env [] s)) = robot_capabilities s"
  by (simp add: delegateTask_def)

section \<open>The rule-based selection\<close>

lemma offers_more_Cons:
  "offers_more t ((r0, c0) # rest) s =
     ((\<exists>v. map_of c0 t = Some v \<and> s < v) \<or> offers_more t rest s)"
  by (auto simp: offers_more_def)

lemma select_loop_spec:
  assumes "sorted_wrt (<) (map fst table)"
    and "select_loop t table (b, s) = (b', s')"
  shows "s \<le> s' \<and>
     (\<forall>r caps v. (r, caps) \<in> set table \<and> map_of caps t = Some v \<longrightarrow> v \<le> s') \<and>
     (offers_more t table s \<longrightarrow>
        s < s' \<and> (\<exists>caps. (b', caps) \<in> set table \<and> map_of caps t = Some s') \<and>
        (\<forall>r caps. (r, caps) \<in> set table \<and> map_of caps t = Some s' \<longrightarrow> b' \<le> r)) \<and>
     (\<not> offers_more t table s \<longrightarrow> b' = b \<and> s' = s)"
  using assms
proof (induction table arbitrary: b s)
  case Nil
  then show ?case by (simp add: offers_more_def)
next
  case (Cons entry rest)
  obtain r0 c0 where entry: "entry = (r0, c0)" by (cases entry)
  have sorted_rest: "sorted_wrt (<) (map fst rest)"
    and above: "\<And>r caps. (r, caps) \<in> set rest \<Longrightarrow> r0 < r"
    using Cons.prems(1) entry by auto
  show ?case
  proof (cases "\<exists>v0. map_of c0 t = Some v0 \<and> s < v0")
    case True
    then obtain v0 where v0: "map_of c0 t = Some v0" "s < v0" by blast
    then have step: "select_loop t rest (r0, v0) = (b', s')"
      using Cons.prems(2) entry by simp
    note IH = Cons.IH [OF sorted_rest step]
    have more: "offers_more t (entry # rest) s"
      using v0 by (auto simp: entry offers_more_Cons)
    have bound: "\<forall>r caps v. (r, caps) \<in> set (entry # rest) \<and> map_of caps t = Some v \<longrightarrow> v \<le> s'"
      using IH v0 by (auto simp: entry)
    show ?thesis
    proof (cases "offers_more t rest v0")
      case True
      with IH have "v0 < s'"
        and "\<exists>caps. (b', caps) \<in> set rest \<and> map_of caps t = Some s'"
        and "\<forall>r caps. (r, caps) \<in> set rest \<and> map_of caps t = Some s' \<longrightarrow> b' \<le> r"
        by blast+
      then have "s < s'"
        and "\<exists>caps. (b', caps) \<in> set (entry # rest) \<and> map_of caps t = Some s'"
        and "\<forall>r caps. (r, caps) \<in> set (entry # rest) \<and> map_of caps t = Some s' \<longrightarrow> b' \<le> r"
        using v0 by (auto simp: entry)
      then show ?thesis using more bound by simp
    next
      case False
      with IH have eq: "b' = r0" "s' = v0" by blast+
      have "\<forall>r caps. (r, caps) \<in> set (entry # rest) \<and> map_of caps t = Some s' \<longrightarrow> b' \<le> r"
        using above eq by (auto simp: entry dest: less_imp_le)
      moreover have "\<exists>caps. (b', caps) \<in> set (entry # rest) \<and> map_of caps t = Some s'"
        using v0 eq by (auto simp: entry)
      ultimately show ?thesis using more bound v0 eq by simp
    qed
  next
    case False
    then have step: "select_loop t rest (b, s) = (b', s')"
      using Cons.prems(2) entry by (auto split: option.splits if_splits)
    note IH = Cons.IH [OF sorted_rest step]
    have here: "\<And>v. map_of c0 t = Some v \<Longrightarrow> v \<le> s" using False by force
    have same: "offers_more t (entry # rest) s = offers_more t rest s"
      using False unfolding entry offers_more_Cons by blast
    have bound: "\<forall>r caps v. (r, caps) \<in> set (entry # rest) \<and> map_of caps t = Some v \<longrightarrow> v \<le> s'"
      using IH here by (fastforce simp: entry)
    show ?thesis
    proof (cases "offers_more t rest s")
      case True
      with IH have "s < s'"
        and "\<exists>caps. (b', caps) \<in> set rest \<and> map_of caps t = Some s'"
        and "\<forall>r caps. (r, caps) \<in> set rest \<and> map_of caps t = Some s' \<longrightarrow> b' \<le> r"
        by blast+
      then have "s < s'"
        and "\<exists>caps. (b', caps) \<in> set (entry # rest) \<and> map_of caps t = Some s'"
        and "\<forall>r caps. (r, caps) \<in> set (entry # rest) \<and> map_of caps t = Some s' \<longrightarrow> b' \<le> r"
        using here by (fastforce simp: entry)+
      then show ?thesis using True same bound by simp
    next
      case False
      with IH have "b' = b" "s' = s" by blast+
      then show ?thesis using False same bound by simp
    qed
  qed
qed


lemma ordered_keys_lookup:
  "ordered_keys table \<Longrightarrow> (map_of table r = Some caps) = ((r, caps) \<in> set table)"
  by (simp add: ordered_keys_def strict_sorted_iff)

lemma capabilityOf_member:
  "ordered_keys table \<Longrightarrow>
     (capabilityOf table r t = Some v) = (\<exists>caps. (r, caps) \<in> set table \<and> map_of caps t = Some v)"
proof -
  assume "ordered_keys table"
  then have "(\<exists>caps. (r, caps) \<in> set table \<and> map_of caps t = Some v) =
      (\<exists>caps. map_of table r = Some caps \<and> map_of caps t = Some v)"
    by (simp add: ordered_keys_lookup)
  then show ?thesis
    by (cases "map_of table r") (simp_all add: capabilityOf_def)
qed

text \<open>
  The tables the object can hold: the initial table has its robots in ascending order
  and no robot with the empty id, and \<^verbatim>\<open>delegateTask\<close> never changes the list of
  robots.
\<close>

lemma initial_capabilities_shape:
  "ordered_keys initial_capabilities" "map_of initial_capabilities [] = None"
  by (simp_all add: ordered_keys_def initial_capabilities_def)

lemma delegateTask_keeps_shape:
  "ordered_keys (robot_capabilities s) \<Longrightarrow>
     ordered_keys (robot_capabilities (snd (delegateTask env t s)))"
  "map_of (robot_capabilities s) [] = None \<Longrightarrow>
     map_of (robot_capabilities (snd (delegateTask env t s))) [] = None"
proof -
  have keys: "fst ` set (robot_capabilities (snd (delegateTask env t s))) =
      fst ` set (robot_capabilities s)"
    using delegateTask_robots [of env t s] by (metis list.set_map)
  show "ordered_keys (robot_capabilities s) \<Longrightarrow>
     ordered_keys (robot_capabilities (snd (delegateTask env t s)))"
    by (simp add: ordered_keys_def delegateTask_robots)
  show "map_of (robot_capabilities s) [] = None \<Longrightarrow>
     map_of (robot_capabilities (snd (delegateTask env t s))) [] = None"
    by (simp add: map_of_eq_None_iff keys)
qed

lemma all_entries:
  assumes "ordered_keys table"
  shows "(\<forall>(r, caps) \<in> set table. case map_of caps t of None \<Rightarrow> True | Some v \<Rightarrow> P r v) \<longleftrightarrow>
         (\<forall>r v. capabilityOf table r t = Some v \<longrightarrow> P r v)"
  unfolding capabilityOf_member [OF assms]
  by (auto split: option.splits)

lemma selectRobotByCapability_result:
  assumes "ordered_keys table" and "map_of table [] = None"
  shows "(selectRobotByCapability table t = Inr robot \<longleftrightarrow>
            (\<exists>v. capabilityOf table robot t = Some v \<and> 0 < v \<and>
               (\<forall>r' v'. capabilityOf table r' t = Some v' \<longrightarrow>
                  v' \<le> v \<and> (v' = v \<longrightarrow> robot \<le> r')))) \<and>
         (selectRobotByCapability table t = Inl (NotFound t) \<longleftrightarrow>
            (\<forall>r v. capabilityOf table r t = Some v \<longrightarrow> v \<le> 0))"
proof -
  let ?best = "\<lambda>robot. \<exists>v. capabilityOf table robot t = Some v \<and> 0 < v \<and>
      (\<forall>r' v'. capabilityOf table r' t = Some v' \<longrightarrow> v' \<le> v \<and> (v' = v \<longrightarrow> robot \<le> r'))"
  obtain b' s' where loop: "select_loop t table ([], 0) = (b', s')"
    by (cases "select_loop t table ([], 0)")
  have sorted: "sorted_wrt (<) (map fst table)"
    using assms(1) by (simp add: ordered_keys_def)
  note spec = select_loop_spec [OF sorted loop]
  have member: "\<And>r v. (capabilityOf table r t = Some v) =
      (\<exists>caps. (r, caps) \<in> set table \<and> map_of caps t = Some v)"
    using assms(1) by (rule capabilityOf_member)
  have more: "offers_more t table 0 = (\<exists>r v. capabilityOf table r t = Some v \<and> 0 < v)"
    unfolding offers_more_def member by blast
  have result: "selectRobotByCapability table t = (if b' = [] then Inl (NotFound t) else Inr b')"
    using loop by (simp add: selectRobotByCapability_def)
  show ?thesis
  proof (cases "offers_more t table 0")
    case True
    with spec have pos: "0 < s'"
      and found: "capabilityOf table b' t = Some s'"
      and least: "\<And>r. capabilityOf table r t = Some s' \<Longrightarrow> b' \<le> r"
      and bound: "\<And>r v. capabilityOf table r t = Some v \<Longrightarrow> v \<le> s'"
      unfolding member by blast+
    have "map_of table b' \<noteq> None"
      using found by (auto simp: capabilityOf_def split: option.splits)
    with assms(2) have nonempty: "b' \<noteq> []" by auto
    have best: "?best b'"
      using pos found least bound by blast
    have unique: "robot = b'" if "?best robot"
    proof -
      from that obtain v where v: "capabilityOf table robot t = Some v"
        and vmax: "\<And>r' v'. capabilityOf table r' t = Some v' \<Longrightarrow> v' \<le> v"
        and vleast: "\<And>r'. capabilityOf table r' t = Some v \<Longrightarrow> robot \<le> r'"
        by blast
      have "v = s'" using vmax [OF found] bound [OF v] by simp
      then show ?thesis using vleast [of b'] least [of robot] found v by simp
    qed
    have "\<not> (\<forall>r v. capabilityOf table r t = Some v \<longrightarrow> v \<le> 0)"
      using found pos by force
    then show ?thesis using result nonempty best unique by auto
  next
    case False
    with spec have "b' = []" by blast
    moreover have none: "\<forall>r v. capabilityOf table r t = Some v \<longrightarrow> v \<le> 0"
      using False unfolding more by force
    moreover have "\<not> ?best robot"
      using none by force
    ultimately show ?thesis using result by simp
  qed
qed

text \<open>
  Claim C4. On a capability table (keys in the order of \<^verbatim>\<open>std::map\<close>, no robot
  with the empty id) \<^verbatim>\<open>selectRobotByCapability\<close> returns a robot exactly when it is
  the robot of maximum strength for the capability among those of positive strength,
  the least id among robots of that strength; it throws the not-found error exactly
  when no robot has a positive strength for the capability. The result is a function
  of the table and the capability.
\<close>

theorem selectRobotByCapability_best:
  assumes "ordered_keys table" and "map_of table [] = None"
  shows "(selectRobotByCapability table t = Inr robot \<longleftrightarrow> best_robot_for table t robot) \<and>
         (selectRobotByCapability table t = Inl (NotFound t) \<longleftrightarrow> no_capable_robot table t)"
proof -
  have "best_robot_for table t robot \<longleftrightarrow>
      (\<exists>v. capabilityOf table robot t = Some v \<and> 0 < v \<and>
         (\<forall>r' v'. capabilityOf table r' t = Some v' \<longrightarrow> v' \<le> v \<and> (v' = v \<longrightarrow> robot \<le> r')))"
    unfolding best_robot_for_def all_entries [OF assms(1)]
    by (auto split: option.splits)
  moreover have "no_capable_robot table t \<longleftrightarrow>
      (\<forall>r v. capabilityOf table r t = Some v \<longrightarrow> v \<le> 0)"
    unfolding no_capable_robot_def by (rule all_entries [OF assms(1)])
  ultimately show ?thesis
    using selectRobotByCapability_result [OF assms, of t robot] by simp
qed

theorem selectRobotByCapability_best_witness:
  "ordered_keys initial_capabilities \<and> map_of initial_capabilities [] = None \<and>
   selectRobotByCapability initial_capabilities ''navigation'' = Inr ''Scion'' \<and>
   best_robot_for initial_capabilities ''navigation'' ''Scion'' \<and>
   selectRobotByCapability [(''A'', [(''x'', 5)]), (''B'', [(''x'', 5)])] ''x'' = Inr ''A'' \<and>
   best_robot_for [(''A'', [(''x'', 5)]), (''B'', [(''x'', 5)])] ''x'' ''A'' \<and>
   selectRobotByCapability initial_capabilities ''unknown_capability''
     = Inl (NotFound ''unknown_capability'') \<and>
   no_capable_robot initial_capabilities ''unknown_capability''"
proof -
  have h1: "ordered_keys initial_capabilities"
    by (simp add: ordered_keys_def initial_capabilities_def)
  have h2: "map_of initial_capabilities [] = None"
    by (simp add: initial_capabilities_def)
  have t1: "ordered_keys [(''A'', [(''x'', 5::int)]), (''B'', [(''x'', 5)])]"
    by (simp add: ordered_keys_def)
  have t2: "map_of [(''A'', [(''x'', 5::int)]), (''B'', [(''x'', 5)])] [] = None"
    by simp
  have e1: "best_robot_for initial_capabilities ''navigation'' ''Scion''"
    by (simp add: best_robot_for_def initial_capabilities_def capabilityOf_def)
  have e2: "best_robot_for [(''A'', [(''x'', 5)]), (''B'', [(''x'', 5)])] ''x'' ''A''"
    by (simp add: best_robot_for_def capabilityOf_def)
  have e3: "no_capable_robot initial_capabilities ''unknown_capability''"
    by (simp add: no_capable_robot_def initial_capabilities_def)
  from selectRobotByCapability_best [OF h1 h2, of "''navigation''" "''Scion''"]
    selectRobotByCapability_best [OF t1 t2, of "''x''" "''A''"]
    selectRobotByCapability_best [OF h1 h2, of "''unknown_capability''" "''Ford''"]
    h1 h2 e1 e2 e3
  show ?thesis by simp
qed

section \<open>Reading a task back\<close>

text \<open>
  With the database answering, \<^verbatim>\<open>getTaskStatus\<close> throws the not-found error for an
  id that no row has.
\<close>

lemma getTaskStatus_not_found:
  assumes "\<forall>r \<in> set (tasks s). row_id r \<noteq> sint i"
  shows "getTaskStatus SQLITE_OK i s = Inl (TaskNotFound (sint i))"
proof -
  from assms have "filter (\<lambda>r. row_id r = sint i) (tasks s) = []"
    by (simp add: filter_empty_conv)
  then show ?thesis by (simp add: getTaskStatus_def)
qed

text \<open>
  After a \<^verbatim>\<open>delegateTask\<close> that returned, the query for the id of the new row
  yields exactly one row; it holds the C strings of the task type and of the robot.
\<close>

lemma getTaskStatus_after_delegateTask:
  assumes "delegateTask env t s = (Inr (), s')"
    and "fst (queryAIEngine (ai_engine env) t s) = Inr robot"
    and "sint j = row_id (last (tasks s'))"
  shows "\<exists>row. getTaskStatus SQLITE_OK j s' = Inr [row] \<and>
     map_of row ''task_type'' = Some (c_str t) \<and>
     map_of row ''robot_id'' = Some (c_str robot) \<and>
     map_of row ''status'' = Some ''assigned''"
proof -
  from delegateTask_success [OF assms(1)] assms(2) obtain n where
    n: "new_rowid (tasks s) (sqlite_sequence s) = Some n"
    and rows: "tasks s' = tasks s @
       [\<lparr>row_id = n, task_type = c_str t, robot_id = c_str robot, status = ''assigned'',
         created_at = current_timestamp env\<rparr>]"
    by auto
  let ?row = "\<lparr>row_id = n, task_type = c_str t, robot_id = c_str robot,
      status = ''assigned'', created_at = current_timestamp env\<rparr>"
  from rows assms(3) have j: "sint j = n" by simp
  have "row_id r \<noteq> n" if "r \<in> set (tasks s)" for r
    using new_rowid_fresh [OF n that] by simp
  then have "filter (\<lambda>r. row_id r = sint j) (tasks s) = []"
    by (simp add: filter_empty_conv j)
  then have "getTaskStatus SQLITE_OK j s' = Inr [row_map ?row]"
    by (simp add: getTaskStatus_def rows j)
  then show ?thesis by (simp add: row_map_def)
qed

text \<open>
  Claim C7 has the row read back hold the task type passed to \<^verbatim>\<open>delegateTask\<close>.
  \<^verbatim>\<open>storeTask\<close> binds the task type as a C string: for the task type of the five
  bytes n, a, v, NUL, x, with the AI engine recommending Ford, \<^verbatim>\<open>delegateTask\<close>
  returns, publishes the five bytes on the task channel, and stores a row that
  \<^verbatim>\<open>getTaskStatus\<close> reads back with the task type \<^verbatim>\<open>nav\<close>.
\<close>

theorem getTaskStatus_truncated_task_type:
  "fst (delegateTask
          \<lparr>ai_engine = RobotId ''Ford'', sqlite = SQLITE_OK,
           current_timestamp = ''2024-01-01 00:00:00'', publish_ok = True\<rparr>
          (''nav'' @ [CHR 0x00] @ ''x'') (Orchestrator [] 0)) = Inr () \<and>
   published (snd (delegateTask
          \<lparr>ai_engine = RobotId ''Ford'', sqlite = SQLITE_OK,
           current_timestamp = ''2024-01-01 00:00:00'', publish_ok = True\<rparr>
          (''nav'' @ [CHR 0x00] @ ''x'') (Orchestrator [] 0)))
     = [(''Ford'', ''nav'' @ [CHR 0x00] @ ''x'')] \<and>
   getTaskStatus SQLITE_OK 1
     (snd (delegateTask
          \<lparr>ai_engine = RobotId ''Ford'', sqlite = SQLITE_OK,
           current_timestamp = ''2024-01-01 00:00:00'', publish_ok = True\<rparr>
          (''nav'' @ [CHR 0x00] @ ''x'') (Orchestrator [] 0)))
     = Inr [[(''created_at'', ''2024-01-01 00:00:00''), (''id'', ''1''),
             (''robot_id'', ''Ford''), (''status'', ''assigned''), (''task_type'', ''nav'')]]"
  by (simp add: delegateTask_def queryAIEngine_def verify_robot_def strength_ref_def
      subscript_def storeTask_def new_rowid_def MAX_ROWID_def c_str_def Orchestrator_def
      initial_capabilities_def getTaskStatus_def row_map_def to_string_def)

section \<open>Loading the drivers\<close>

lemma load_drivers_lookup:
  assumes "distinct (map fst dmap)"
  shows "map_of (load_drivers ld dmap handles) r =
     (case map_of dmap r of
        None \<Rightarrow> map_of handles r
      | Some path \<Rightarrow>
          if file_exists ld path \<and> dlopen ld path \<noteq> 0 then Some (dlopen ld path)
          else map_of handles r)"
  using assms
proof (induction dmap arbitrary: handles)
  case Nil
  then show ?case by simp
next
  case (Cons entry rest)
  obtain robot path where entry: "entry = (robot, path)" by (cases entry)
  have rest: "distinct (map fst rest)" and fresh: "map_of rest robot = None"
    using Cons.prems entry by (auto simp: map_of_eq_None_iff)
  note IH = Cons.IH [OF rest]
  show ?case
  proof (cases "file_exists ld path \<and> dlopen ld path \<noteq> 0")
    case False
    then have "load_drivers ld (entry # rest) handles = load_drivers ld rest handles"
      by (auto simp: entry loadDriver_def Let_def)
    then show ?thesis using False IH [of handles] fresh
      by (auto simp: entry split: option.splits)
  next
    case True
    let ?h = "assign robot (dlopen ld path) (subscript robot 0 handles)"
    have step: "load_drivers ld (entry # rest) handles = load_drivers ld rest ?h"
      using True by (simp add: entry loadDriver_def Let_def)
    have h: "map_of ?h k = (if k = robot then Some (dlopen ld path) else map_of handles k)" for k
      by (simp add: map_of_assign map_of_subscript_same map_of_subscript_other)
    show ?thesis unfolding step using True IH [of ?h] fresh
      by (auto simp: entry h split: option.splits)
  qed
qed

text \<open>
  Claim C8. After the loading loop of the constructor, started without handles on a
  driver map and with a language for the robot, a robot of the driver map is available
  exactly when its own driver file exists and \<^verbatim>\<open>dlopen\<close> returns a handle for it,
  whatever happens to the drivers of the other robots.
\<close>

theorem load_all_available:
  assumes "ordered_keys (robot_driver_map ri)"
    and "driver_handles ri = []"
    and "map_of (robot_driver_map ri) robot = Some path"
    and "map_of (robot_language_map ri) robot \<noteq> None"
  shows "isRobotAvailable (load_all ld ri) robot \<longleftrightarrow> file_exists ld path \<and> dlopen ld path \<noteq> 0"
proof -
  have "distinct (map fst (robot_driver_map ri))"
    using assms(1) by (simp add: ordered_keys_def strict_sorted_iff)
  from load_drivers_lookup [OF this, of ld "[]" robot] assms(2,3,4)
  show ?thesis by (simp add: isRobotAvailable_def load_all_def)
qed

theorem load_all_available_witness:
  "\<not> isRobotAvailable
       (RobotInterface
          \<lparr>file_exists = (\<lambda>p. p = ''backend/assembly/drivers/scion_driver.so''),
           dlopen = (\<lambda>p. 4096), dlsym = (\<lambda>h n. None)\<rparr>) ''Ford'' \<and>
   isRobotAvailable
       (RobotInterface
          \<lparr>file_exists = (\<lambda>p. p = ''backend/assembly/drivers/scion_driver.so''),
           dlopen = (\<lambda>p. 4096), dlsym = (\<lambda>h n. None)\<rparr>) ''Scion''"
proof -
  let ?ld = "\<lparr>file_exists = (\<lambda>p. p = ''backend/assembly/drivers/scion_driver.so''),
           dlopen = (\<lambda>p. 4096), dlsym = (\<lambda>h n. None)\<rparr>"
  let ?ri = "initRobotMappings
          \<lparr>driver_handles = [], robot_driver_map = [], robot_language_map = [], responses = []\<rparr>"
  have h1: "ordered_keys (robot_driver_map ?ri)"
    by (simp add: initRobotMappings_def ordered_keys_def)
  have h2: "driver_handles ?ri = []"
    by (simp add: initRobotMappings_def)
  have ford: "map_of (robot_driver_map ?ri) ''Ford'' = Some ''backend/c/drivers/ford_driver.so''"
    and scion: "map_of (robot_driver_map ?ri) ''Scion'' = Some ''backend/assembly/drivers/scion_driver.so''"
    by (simp_all add: initRobotMappings_def)
  have lf: "map_of (robot_language_map ?ri) ''Ford'' \<noteq> None"
    and ls: "map_of (robot_language_map ?ri) ''Scion'' \<noteq> None"
    by (simp_all add: initRobotMappings_def)
  from load_all_available [OF h1 h2 ford lf, of ?ld] load_all_available [OF h1 h2 scion ls, of ?ld]
  show ?thesis by (simp add: RobotInterface_def)
qed

section \<open>Sending a task to a robot\<close>






end
